theory Spec2Isabelle
  imports Main "HOL-Library.Sublist"
begin

section \<open>Python values, exceptions and the string built-ins used by the pipeline\<close>

text \<open>
  The embedding follows \<^verbatim>\<open>src/bert-models/data_preprocessing.py\<close>. A Python \<^verbatim>\<open>str\<close> is a
  \<^typ>\<open>string\<close>; each character stands for one code point below 256. The argument
  \<^verbatim>\<open>filler_markers\<close> is dynamically typed in the source (its type is inspected at run
  time), so it is a value of \<open>pyval\<close>.
\<close>

datatype pyval =
    PyNone
  | PyBool bool
  | PyInt int
  | PyStr string
  | PyTuple "pyval list"
  | PyList "pyval list"

text \<open>
  Every f-string of the source that builds an exception message becomes a constructor of
  \<open>message\<close> that carries the interpolated value; \<open>NotInList\<close> is the message of
  \<^verbatim>\<open>list.index\<close> and \<open>JoinExpectedStr\<close> that of \<^verbatim>\<open>str.join\<close> on a non-string item.
\<close>

datatype message =
    SpecialTokensNotValid pyval
  | DoesNotContainBlank string
  | NotInList string
  | NotAValidPlausibilityClass string
  | JoinExpectedStr nat pyval

datatype error =
    ValueError message
  | TypeError message
  | KeyError string

text \<open>Truth value of an object, as tested by \<^verbatim>\<open>if filler_markers:\<close>.\<close>

fun truthy :: "pyval \<Rightarrow> bool" where
  "truthy PyNone = False"
| "truthy (PyBool b) = b"
| "truthy (PyInt i) = (i \<noteq> 0)"
| "truthy (PyStr s) = (s \<noteq> [])"
| "truthy (PyTuple xs) = (xs \<noteq> [])"
| "truthy (PyList xs) = (xs \<noteq> [])"

text \<open>\<^verbatim>\<open>str.isspace\<close> on the code points below 256.\<close>

definition is_space :: "char \<Rightarrow> bool" where
  "is_space c \<longleftrightarrow>
     c = CHR 0x09 \<or> c = CHR 0x0A \<or> c = CHR 0x0B \<or> c = CHR 0x0C \<or> c = CHR 0x0D \<or>
     c = CHR 0x1C \<or> c = CHR 0x1D \<or> c = CHR 0x1E \<or> c = CHR 0x1F \<or> c = CHR 0x20 \<or>
     c = CHR 0x85 \<or> c = CHR 0xA0"

text \<open>
  \<^verbatim>\<open>str.split()\<close> without arguments: runs of whitespace separate the tokens and no empty
  token is produced. \<open>cur\<close> is the token being read.
\<close>

fun split_ws :: "string \<Rightarrow> string \<Rightarrow> string list" where
  "split_ws cur [] = (if cur = [] then [] else [cur])"
| "split_ws cur (c # cs) =
     (if is_space c
      then (if cur = [] then split_ws [] cs else cur # split_ws [] cs)
      else split_ws (cur @ [c]) cs)"

definition py_split :: "string \<Rightarrow> string list" where
  "py_split s = split_ws [] s"

text \<open>\<^verbatim>\<open>list.index(x)\<close>: the first position of \<open>x\<close>, or a \<^verbatim>\<open>ValueError\<close>.\<close>

fun py_index :: "string \<Rightarrow> string list \<Rightarrow> error + nat" where
  "py_index x [] = Inl (ValueError (NotInList x))"
| "py_index x (y # ys) =
     (if x = y then Inr 0
      else (case py_index x ys of Inl e \<Rightarrow> Inl e | Inr i \<Rightarrow> Inr (Suc i)))"

text \<open>\<^verbatim>\<open>list.insert(i, x)\<close> for an index within the list.\<close>

definition py_insert :: "nat \<Rightarrow> 'a \<Rightarrow> 'a list \<Rightarrow> 'a list" where
  "py_insert i x xs = take i xs @ x # drop i xs"

text \<open>\<^verbatim>\<open>sep.join(strs)\<close> on a list of strings.\<close>

fun join_strs :: "string \<Rightarrow> string list \<Rightarrow> string" where
  "join_strs sep [] = []"
| "join_strs sep [t] = t"
| "join_strs sep (t # u # ts) = t @ sep @ join_strs sep (u # ts)"

text \<open>
  \<^verbatim>\<open>str.join\<close> raises a \<^verbatim>\<open>TypeError\<close> at the first item that is not a string;
  \<open>str_items k\<close> checks the items, \<open>k\<close> being the position of the first of them.
\<close>

fun str_items :: "nat \<Rightarrow> pyval list \<Rightarrow> error + string list" where
  "str_items k [] = Inr []"
| "str_items k (PyStr s # vs) =
     (case str_items (Suc k) vs of Inl e \<Rightarrow> Inl e | Inr ss \<Rightarrow> Inr (s # ss))"
| "str_items k (v # vs) = Inl (TypeError (JoinExpectedStr k v))"

definition py_join :: "string \<Rightarrow> pyval list \<Rightarrow> error + string" where
  "py_join sep vs = (case str_items 0 vs of Inl e \<Rightarrow> Inl e | Inr ss \<Rightarrow> Inr (join_strs sep ss))"

text \<open>
  \<^verbatim>\<open>s.replace(old, new)\<close>: the occurrences of \<open>old\<close> are found from left to right without
  overlap. \<open>replace_ne\<close> is the scan for a non-empty \<open>old\<close>; for an empty \<open>old\<close> Python puts
  \<open>new\<close> before every character and at the end.
\<close>

fun replace_ne :: "string \<Rightarrow> string \<Rightarrow> string \<Rightarrow> string" where
  "replace_ne old new [] = []"
| "replace_ne old new (c # cs) =
     (if old \<noteq> [] \<and> prefix old (c # cs)
      then new @ replace_ne old new (drop (length old) (c # cs))
      else c # replace_ne old new cs)"

definition py_replace :: "string \<Rightarrow> string \<Rightarrow> string \<Rightarrow> string" where
  "py_replace s old new =
     (if old = [] then new @ concat (map (\<lambda>c. c # new) s) else replace_ne old new s)"

section \<open>Filler marker insertion\<close>

definition blank :: string where
  "blank = ''______''"

text \<open>
  The body of the \<^verbatim>\<open>try\<close> block of \<^verbatim>\<open>insert_filler_markers\<close>. The test
  \<^verbatim>\<open>type(filler_markers) != tuple or len(filler_markers) != 2\<close> reads the length only of a
  tuple. The token list holds the markers as they are given, so it is a list of \<open>pyval\<close>.
\<close>

definition insert_filler_markers_try :: "string \<Rightarrow> string \<Rightarrow> pyval \<Rightarrow> error + string" where
  "insert_filler_markers_try sentence filler filler_markers =
     (let sentence_tokens = py_split sentence in
      case py_index blank sentence_tokens of
        Inl e \<Rightarrow> Inl e
      | Inr blank_index \<Rightarrow>
         (case filler_markers of
            PyTuple items \<Rightarrow>
              if length items \<noteq> 2
              then Inl (ValueError (SpecialTokensNotValid filler_markers))
              else
                (let toks1 = (map PyStr sentence_tokens)[blank_index := items ! 1];
                     toks2 = py_insert blank_index (PyStr filler) toks1;
                     toks3 = py_insert blank_index (items ! 0) toks2
                 in py_join '' '' toks3)
          | _ \<Rightarrow> Inl (ValueError (SpecialTokensNotValid filler_markers))))"

text \<open>
  \<^verbatim>\<open>except ValueError: raise ValueError(f"Sentence {sentence} does not contain blank.")\<close>
  catches every \<^verbatim>\<open>ValueError\<close> raised in the block; other exceptions pass.
\<close>

definition insert_filler_markers :: "string \<Rightarrow> string \<Rightarrow> pyval \<Rightarrow> error + string" where
  "insert_filler_markers sentence filler filler_markers =
     (case insert_filler_markers_try sentence filler filler_markers of
        Inl (ValueError m) \<Rightarrow> Inl (ValueError (DoesNotContainBlank sentence))
      | Inl e \<Rightarrow> Inl e
      | Inr s \<Rightarrow> Inr s)"

subsection \<open>Removing the markers again\<close>

text \<open>
  The round-trip property of the specification speaks of removing the two marker tokens
  from the output and collapsing the spacing they introduced. That operation is not in
  the source; \<open>remove_marker_tokens\<close> follows the words of the specification: the output is
  cut at every single space (\<^verbatim>\<open>out.split(" ")\<close>, the inverse of \<^verbatim>\<open>" ".join\<close>), the tokens
  equal to a marker are dropped and the rest is joined by single spaces again.
\<close>

fun split_on_space :: "string \<Rightarrow> string list" where
  "split_on_space [] = [[]]"
| "split_on_space (c # cs) =
     (if c = CHR '' '' then [] # split_on_space cs
      else (case split_on_space cs of [] \<Rightarrow> [[c]] | t # ts \<Rightarrow> (c # t) # ts))"

definition remove_marker_tokens :: "string \<Rightarrow> string \<Rightarrow> string \<Rightarrow> string" where
  "remove_marker_tokens m0 m1 s =
     join_strs '' '' (filter (\<lambda>t. t \<noteq> m0 \<and> t \<noteq> m1) (split_on_space s))"

section \<open>Instance builder\<close>

text \<open>
  A row of the instances table, with the columns of the input file. The cells of a table
  as read from the file may be missing (\<open>None\<close>, a NaN of the data frame); after
  \<^verbatim>\<open>dataset.fillna("")\<close> every cell is a string.
\<close>

record 'c row =
  Id_col :: 'c
  Sentence_col :: 'c
  Filler1_col :: 'c
  Filler2_col :: 'c
  Filler3_col :: 'c
  Filler4_col :: 'c
  Filler5_col :: 'c
  Article_title_col :: 'c
  Section_header_col :: 'c
  Previous_context_col :: 'c
  Follow_up_context_col :: 'c

definition fill :: "string option \<Rightarrow> string" where
  "fill c = (case c of None \<Rightarrow> [] | Some s \<Rightarrow> s)"

definition fillna :: "string option row \<Rightarrow> string row" where
  "fillna r =
     \<lparr>Id_col = fill (Id_col r), Sentence_col = fill (Sentence_col r),
      Filler1_col = fill (Filler1_col r), Filler2_col = fill (Filler2_col r),
      Filler3_col = fill (Filler3_col r), Filler4_col = fill (Filler4_col r),
      Filler5_col = fill (Filler5_col r),
      Article_title_col = fill (Article_title_col r),
      Section_header_col = fill (Section_header_col r),
      Previous_context_col = fill (Previous_context_col r),
      Follow_up_context_col = fill (Follow_up_context_col r)\<rparr>"

text \<open>Decimal digits of a number, as \<^verbatim>\<open>str\<close> and the f-string give them.\<close>

fun str_nat :: "nat \<Rightarrow> string" where
  "str_nat n =
     (if n < 10 then [''0123456789'' ! n]
      else str_nat (n div 10) @ [''0123456789'' ! (n mod 10)])"

declare str_nat.simps [simp del]

text \<open>\<^verbatim>\<open>row[f"Filler{filler_index}"]\<close>: a column that is not in the table is a \<^verbatim>\<open>KeyError\<close>.\<close>

definition row_filler :: "string row \<Rightarrow> nat \<Rightarrow> error + string" where
  "row_filler r filler_index =
     (if filler_index = 1 then Inr (Filler1_col r)
      else if filler_index = 2 then Inr (Filler2_col r)
      else if filler_index = 3 then Inr (Filler3_col r)
      else if filler_index = 4 then Inr (Filler4_col r)
      else if filler_index = 5 then Inr (Filler5_col r)
      else Inl (KeyError (''Filler'' @ str_nat filler_index)))"

text \<open>The text with the filler: marked when \<^verbatim>\<open>filler_markers\<close> is true, substituted otherwise.\<close>

definition sent_with_filler :: "string row \<Rightarrow> nat \<Rightarrow> pyval \<Rightarrow> error + string" where
  "sent_with_filler r filler_index filler_markers =
     (case row_filler r filler_index of
        Inl e \<Rightarrow> Inl e
      | Inr filler \<Rightarrow>
          if truthy filler_markers
          then insert_filler_markers (Sentence_col r) filler filler_markers
          else Inr (py_replace (Sentence_col r) blank filler))"

text \<open>
  The two format strings \<^verbatim>\<open>"{0} \n {1} \n{2} \n{3} \n{4}"\<close> and
  \<^verbatim>\<open>"{0} \n {1} \n{2} \n{3}"\<close>. The value of \<^verbatim>\<open>context.replace("(...)", "")\<close> is not
  bound to any name in the source: \<open>context\<close> is appended as it was formatted.
\<close>

definition sep_title :: string where
  "sep_title = [CHR '' '', CHR 0x0A, CHR '' '']"

definition sep_line :: string where
  "sep_line = [CHR '' '', CHR 0x0A]"

definition with_context :: "string row \<Rightarrow> string \<Rightarrow> string" where
  "with_context r sent =
     (if Follow_up_context_col r \<noteq> []
      then
        (let context = Article_title_col r @ sep_title @ Section_header_col r @ sep_line @
                       Previous_context_col r @ sep_line @ sent @ sep_line @
                       Follow_up_context_col r;
             unused = py_replace context ''(...)'' []
         in context)
      else
        (let context = Article_title_col r @ sep_title @ Section_header_col r @ sep_line @
                       Previous_context_col r @ sep_line @ sent;
             unused = py_replace context ''(...)'' []
         in context))"

text \<open>
  The inner loop over the filler indices and the outer loop over the rows; the state is
  the pair of the lists \<^verbatim>\<open>ids\<close> and \<^verbatim>\<open>instances\<close>, appended to in place by the source.
\<close>

fun filler_loop ::
  "string row \<Rightarrow> bool \<Rightarrow> pyval \<Rightarrow> nat list \<Rightarrow> string list \<times> string list \<Rightarrow>
   error + string list \<times> string list" where
  "filler_loop r use_context fm [] st = Inr st"
| "filler_loop r use_context fm (filler_index # rest) (ids, instances) =
     (let ids' = ids @ [Id_col r @ ''_'' @ str_nat filler_index] in
      case sent_with_filler r filler_index fm of
        Inl e \<Rightarrow> Inl e
      | Inr sent \<Rightarrow>
          filler_loop r use_context fm rest
            (ids', instances @ [if use_context then with_context r sent else sent]))"

fun row_loop ::
  "string row list \<Rightarrow> bool \<Rightarrow> pyval \<Rightarrow> string list \<times> string list \<Rightarrow>
   error + string list \<times> string list" where
  "row_loop [] use_context fm st = Inr st"
| "row_loop (r # rows) use_context fm st =
     (case filler_loop r use_context fm [1 ..< 6] st of
        Inl e \<Rightarrow> Inl e
      | Inr st' \<Rightarrow> row_loop rows use_context fm st')"

definition retrieve_instances_from_dataset ::
  "string option row list \<Rightarrow> bool \<Rightarrow> pyval \<Rightarrow> error + string list \<times> string list" where
  "retrieve_instances_from_dataset dataset use_context filler_markers =
     row_loop (map fillna dataset) use_context filler_markers ([], [])"

section \<open>Label merger\<close>

text \<open>
  \<^verbatim>\<open>merge_data\<close> reads two files; the embedding takes the two tables they hold. The labels
  table is a list of (id, label) rows, and the dictionary comprehension keeps the last
  label of an id.
\<close>

record merged_df =
  ids_col :: "string list"
  text_col :: "string list"
  label_col :: "int list"

definition label_dict_of :: "(string \<times> string) list \<Rightarrow> (string \<rightharpoonup> string)" where
  "label_dict_of labels_df = fold (\<lambda>(k, v) m. m(k \<mapsto> v)) labels_df Map.empty"

fun merge_loop ::
  "(string \<rightharpoonup> string) \<Rightarrow> (string \<times> string) list \<Rightarrow> merged_df \<Rightarrow> error + merged_df" where
  "merge_loop label_dict [] df = Inr df"
| "merge_loop label_dict ((id_elem, inst) # rest) df =
     (let df' = df\<lparr>ids_col := ids_col df @ [id_elem], text_col := text_col df @ [inst]\<rparr> in
      case label_dict id_elem of
        None \<Rightarrow> Inl (KeyError id_elem)
      | Some label \<Rightarrow>
          if label = ''IMPLAUSIBLE''
          then merge_loop label_dict rest (df'\<lparr>label_col := label_col df' @ [0]\<rparr>)
          else if label = ''NEUTRAL''
          then merge_loop label_dict rest (df'\<lparr>label_col := label_col df' @ [1]\<rparr>)
          else if label = ''PLAUSIBLE''
          then merge_loop label_dict rest (df'\<lparr>label_col := label_col df' @ [2]\<rparr>)
          else Inl (ValueError (NotAValidPlausibilityClass label)))"

definition merge_data ::
  "string option row list \<Rightarrow> (string \<times> string) list \<Rightarrow> bool \<Rightarrow> pyval \<Rightarrow> error + merged_df" where
  "merge_data instances_df labels_df use_context filler_markers =
     (let label_dict = label_dict_of labels_df in
      case retrieve_instances_from_dataset instances_df use_context filler_markers of
        Inl e \<Rightarrow> Inl e
      | Inr (ids, instances) \<Rightarrow>
          merge_loop label_dict (zip ids instances)
            \<lparr>ids_col = [], text_col = [], label_col = []\<rparr>)"

text \<open>The labels that the chain of tests in \<^verbatim>\<open>merge_data\<close> accepts, as looked up in the dictionary.\<close>

definition label_ok :: "string option \<Rightarrow> bool" where
  "label_ok x \<longleftrightarrow> x = Some ''IMPLAUSIBLE'' \<or> x = Some ''NEUTRAL'' \<or> x = Some ''PLAUSIBLE''"

section \<open>Concrete inputs\<close>

text \<open>A row without follow-up context whose previous context is the placeholder.\<close>

definition row_placeholder :: "string option row" where
  "row_placeholder =
     \<lparr>Id_col = Some ''7'', Sentence_col = Some ''x ______'',
      Filler1_col = Some ''a'', Filler2_col = Some ''b'', Filler3_col = Some ''c'',
      Filler4_col = Some ''d'', Filler5_col = Some ''e'',
      Article_title_col = Some ''T'', Section_header_col = Some ''H'',
      Previous_context_col = Some ''(...)'', Follow_up_context_col = None\<rparr>"

text \<open>A row with follow-up context whose sentence holds the blank twice, once inside a token.\<close>

definition row_followup :: "string option row" where
  "row_followup =
     \<lparr>Id_col = Some ''8'', Sentence_col = Some ''a______b ______'',
      Filler1_col = Some ''v'', Filler2_col = Some ''w'', Filler3_col = None,
      Filler4_col = Some ''y'', Filler5_col = Some ''z'',
      Article_title_col = Some ''T'', Section_header_col = None,
      Previous_context_col = Some ''P'', Follow_up_context_col = Some ''after''\<rparr>"

text \<open>Label tables: for the ten instances of \<open>row_placeholder\<close> and \<open>row_followup\<close>, complete
  and with a label outside the three classes at the eighth instance; for the five instances
  of \<open>row_placeholder\<close>, with one id missing.\<close>

definition labels_two_rows :: "(string \<times> string) list" where
  "labels_two_rows = [(''7_1'', ''IMPLAUSIBLE''), (''7_2'', ''NEUTRAL''), (''7_3'', ''PLAUSIBLE''),
     (''7_4'', ''NEUTRAL''), (''7_5'', ''PLAUSIBLE''),
     (''8_1'', ''PLAUSIBLE''), (''8_2'', ''IMPLAUSIBLE''), (''8_3'', ''NEUTRAL''),
     (''8_4'', ''IMPLAUSIBLE''), (''8_5'', ''PLAUSIBLE'')]"

definition labels_two_rows_maybe :: "(string \<times> string) list" where
  "labels_two_rows_maybe = [(''7_1'', ''IMPLAUSIBLE''), (''7_2'', ''NEUTRAL''), (''7_3'', ''PLAUSIBLE''),
     (''7_4'', ''NEUTRAL''), (''7_5'', ''PLAUSIBLE''),
     (''8_1'', ''PLAUSIBLE''), (''8_2'', ''IMPLAUSIBLE''), (''8_3'', ''MAYBE''),
     (''8_4'', ''IMPLAUSIBLE''), (''8_5'', ''PLAUSIBLE'')]"

definition labels_missing :: "(string \<times> string) list" where
  "labels_missing = [(''7_1'', ''IMPLAUSIBLE''), (''7_2'', ''NEUTRAL''),
     (''7_4'', ''NEUTRAL''), (''7_5'', ''PLAUSIBLE'')]"

definition markers_F :: pyval where
  "markers_F = PyTuple [PyStr ''[F]'', PyStr ''[/F]'']"

section \<open>Basic facts\<close>

lemma py_index_absent: "x \<notin> set ys \<Longrightarrow> py_index x ys = Inl (ValueError (NotInList x))"
  by (induction ys) auto

lemma py_index_present:
  "x \<in> set ys \<Longrightarrow> \<exists>i. py_index x ys = Inr i \<and> i < length ys \<and> ys ! i = x \<and> x \<notin> set (take i ys)"
proof (induction ys)
  case Nil
  then show ?case by simp
next
  case (Cons y ys)
  show ?case
  proof (cases "x = y")
    case True
    then show ?thesis by simp
  next
    case False
    with Cons obtain i where "py_index x ys = Inr i" "i < length ys" "ys ! i = x"
      "x \<notin> set (take i ys)" by auto
    with False show ?thesis by simp
  qed
qed

lemma upt_1_6: "[Suc 0 ..< 6] = [Suc 0, 2, 3, 4, 5]"
  by (simp add: upt_rec)

lemma str_nat_digits:
  "str_nat (Suc 0) = ''1''" "str_nat 2 = ''2''" "str_nat 3 = ''3''" "str_nat 4 = ''4''"
  "str_nat 5 = ''5''"
  by (simp_all add: str_nat.simps)

lemmas eval_defs =
  insert_filler_markers_def insert_filler_markers_try_def py_split_def is_space_def
  blank_def py_insert_def py_join_def retrieve_instances_from_dataset_def fillna_def fill_def
  sent_with_filler_def row_filler_def py_replace_def with_context_def upt_1_6 str_nat_digits
  merge_data_def label_dict_of_def sep_title_def sep_line_def markers_F_def

subsection \<open>The loops of the instance builder in closed form\<close>

lemma filler_loop_Inr_iff:
  "filler_loop r uc fm is (ids0, ins0) = Inr (ids, ins) \<longleftrightarrow>
     (\<forall>i\<in>set is. \<not> isl (sent_with_filler r i fm)) \<and>
     ids = ids0 @ map (\<lambda>i. Id_col r @ ''_'' @ str_nat i) is \<and>
     ins = ins0 @ map (\<lambda>i. let sent = projr (sent_with_filler r i fm)
                           in if uc then with_context r sent else sent) is"
proof (induction "is" arbitrary: ids0 ins0)
  case Nil
  then show ?case by auto
next
  case (Cons i "is")
  show ?case
  proof (cases "sent_with_filler r i fm")
    case (Inl e)
    then show ?thesis by simp
  next
    case (Inr s)
    then show ?thesis by (simp add: Cons.IH)
  qed
qed

lemma row_loop_Inr_iff:
  "row_loop rows uc fm (ids0, ins0) = Inr (ids, ins) \<longleftrightarrow>
     (\<forall>r\<in>set rows. \<forall>i\<in>set [1 ..< 6]. \<not> isl (sent_with_filler r i fm)) \<and>
     ids = ids0 @ concat (map (\<lambda>r. map (\<lambda>i. Id_col r @ ''_'' @ str_nat i) [1 ..< 6]) rows) \<and>
     ins = ins0 @ concat (map (\<lambda>r. map (\<lambda>i. let sent = projr (sent_with_filler r i fm)
                           in if uc then with_context r sent else sent) [1 ..< 6]) rows)"
proof (induction rows arbitrary: ids0 ins0)
  case Nil
  then show ?case by auto
next
  case (Cons r rows)
  show ?case
  proof (cases "filler_loop r uc fm [1 ..< 6] (ids0, ins0)")
    case (Inl e)
    then have "\<not> (\<forall>i\<in>set [1 ..< 6]. \<not> isl (sent_with_filler r i fm))"
      using filler_loop_Inr_iff [of r uc fm "[1 ..< 6]" ids0 ins0] by auto
    with Inl show ?thesis by auto
  next
    case (Inr st)
    obtain ids1 ins1 where st: "st = (ids1, ins1)" by (cases st)
    from Inr st have run: "filler_loop r uc fm [1 ..< 6] (ids0, ins0) = Inr (ids1, ins1)"
      by simp
    note closed = run [unfolded filler_loop_Inr_iff]
    have step: "row_loop (r # rows) uc fm (ids0, ins0) = row_loop rows uc fm (ids1, ins1)"
      by (simp only: row_loop.simps run sum.case)
    show ?thesis unfolding step Cons.IH using closed by auto
  qed
qed

subsection \<open>Reading one instance of the result\<close>

lemma nth_concat_uniform:
  "\<forall>x\<in>set xs. length (g x) = n \<Longrightarrow> k < length xs \<Longrightarrow> i < n \<Longrightarrow>
   concat (map g xs) ! (n * k + i) = g (xs ! k) ! i"
proof (induction xs arbitrary: k)
  case Nil
  then show ?case by simp
next
  case (Cons x xs)
  show ?case
  proof (cases k)
    case 0
    with Cons.prems show ?thesis by (simp add: nth_append)
  next
    case (Suc k')
    with Cons.prems have "concat (map g xs) ! (n * k' + i) = g (xs ! k') ! i"
      by (intro Cons.IH) auto
    moreover have "n * k + i = length (g x) + (n * k' + i)"
      using Cons.prems(1) Suc by simp
    ultimately show ?thesis
      using Suc by (simp only: list.map concat.simps nth_append_length_plus nth_Cons_Suc)
  qed
qed

lemma row_filler_Inr: "i < 5 \<Longrightarrow> \<exists>filler. row_filler r (Suc i) = Inr filler"
proof -
  assume "i < 5"
  then consider "i = 0" | "i = 1" | "i = 2" | "i = 3" | "i = 4"
    by arith
  then show ?thesis
    by cases (simp_all add: row_filler_def)
qed

lemma retrieve_nth:
  assumes "retrieve_instances_from_dataset ds uc fm = Inr (ids, insts)" "k < length ds" "i < 5"
  shows "\<exists>sent. sent_with_filler (fillna (ds ! k)) (Suc i) fm = Inr sent \<and>
     insts ! (5 * k + i) = (if uc then with_context (fillna (ds ! k)) sent else sent)"
proof -
  let ?g = "\<lambda>r. map (\<lambda>i. let sent = projr (sent_with_filler r i fm)
                           in if uc then with_context r sent else sent) [1 ..< 6]"
  note closed = assms(1) [unfolded retrieve_instances_from_dataset_def row_loop_Inr_iff]
  from closed have insts: "insts = concat (map ?g (map fillna ds))" by simp
  have "\<forall>r\<in>set (map fillna ds). length (?g r) = 5" by simp
  then have "concat (map ?g (map fillna ds)) ! (5 * k + i) = ?g (map fillna ds ! k) ! i"
    using assms(2,3) by (intro nth_concat_uniform) auto
  also have "\<dots> = (let sent = projr (sent_with_filler (fillna (ds ! k)) (Suc i) fm)
                           in if uc then with_context (fillna (ds ! k)) sent else sent)"
    using assms(2,3) by (simp add: Let_def del: upt_Suc)
  finally have nth: "insts ! (5 * k + i) = (let sent = projr (sent_with_filler (fillna (ds ! k)) (Suc i) fm)
                           in if uc then with_context (fillna (ds ! k)) sent else sent)"
    unfolding insts .
  from closed assms(2,3) have "\<not> isl (sent_with_filler (fillna (ds ! k)) (Suc i) fm)"
    by auto
  then obtain sent where "sent_with_filler (fillna (ds ! k)) (Suc i) fm = Inr sent"
    by (cases "sent_with_filler (fillna (ds ! k)) (Suc i) fm") auto
  with nth show ?thesis by simp
qed

subsection \<open>Substring replacement\<close>

lemma prefix_append_short:
  "prefix xs (ys @ zs) \<Longrightarrow> length xs \<le> length ys \<Longrightarrow> prefix xs ys"
  by (auto simp: prefix_append)

lemma replace_ne_absent: "\<not> sublist old s \<Longrightarrow> replace_ne old new s = s"
proof (induction s)
  case Nil
  then show ?case by simp
next
  case (Cons c cs)
  then have "\<not> prefix old (c # cs)" "\<not> sublist old cs"
    by (auto simp: sublist_Cons_right)
  with Cons.IH show ?case by simp
qed

lemma replace_ne_first:
  "old \<noteq> [] \<Longrightarrow> \<not> sublist old (a @ butlast old) \<Longrightarrow>
   replace_ne old new (a @ old @ b) = a @ new @ replace_ne old new b"
proof (induction a)
  case Nil
  then obtain c cs where eq: "old @ b = c # cs" by (cases old) auto
  have "prefix old (c # cs)" "drop (length old) (c # cs) = b"
    by (simp_all flip: eq)
  with Nil.prems(1) have "replace_ne old new (c # cs) = new @ replace_ne old new b"
    by simp
  then show ?case by (simp add: eq)
next
  case (Cons c a)
  from Cons.prems have no: "\<not> prefix old (c # a @ butlast old)" "\<not> sublist old (a @ butlast old)"
    by (auto simp: sublist_Cons_right)
  have "\<not> prefix old (c # a @ old @ b)"
  proof
    assume p: "prefix old (c # a @ old @ b)"
    have split: "old @ b = butlast old @ last old # b"
      using Cons.prems(1) by (metis append_butlast_last_id append.assoc append_Cons append_Nil)
    have len: "length old \<le> length (c # a @ butlast old)"
      by simp
    from p have "prefix old ((c # a @ butlast old) @ (last old # b))"
      by (simp add: split)
    then have "prefix old (c # a @ butlast old)"
      using len by (rule prefix_append_short)
    with no show False by simp
  qed
  with Cons.IH [OF Cons.prems(1) no(2)] show ?case by simp
qed

lemma replace_ne_join:
  "old \<noteq> [] \<Longrightarrow> segs \<noteq> [] \<Longrightarrow>
   \<forall>g\<in>set (butlast segs). \<not> sublist old (g @ butlast old) \<Longrightarrow>
   \<not> sublist old (last segs) \<Longrightarrow>
   replace_ne old new (join_strs old segs) = join_strs new segs"
proof (induction old segs rule: join_strs.induct)
  case (1 sep)
  then show ?case by simp
next
  case (2 sep t)
  then show ?case by (simp add: replace_ne_absent)
next
  case (3 sep t u ts)
  then show ?case by (simp add: replace_ne_first)
qed

subsection \<open>The loop of the label merger\<close>

lemma merge_loop_Inr:
  "merge_loop d ps df = Inr df' \<Longrightarrow>
   ids_col df' = ids_col df @ map fst ps \<and> text_col df' = text_col df @ map snd ps \<and>
   (\<exists>codes. label_col df' = label_col df @ codes \<and>
      list_all2 (\<lambda>p c. (d (fst p) = Some ''IMPLAUSIBLE'' \<and> c = 0) \<or>
                        (d (fst p) = Some ''NEUTRAL'' \<and> c = 1) \<or>
                        (d (fst p) = Some ''PLAUSIBLE'' \<and> c = 2)) ps codes)"
proof (induction ps arbitrary: df)
  case Nil
  then show ?case by simp
next
  case (Cons p ps)
  obtain id_elem inst where p: "p = (id_elem, inst)" by (cases p)
  let ?df = "df\<lparr>ids_col := ids_col df @ [id_elem], text_col := text_col df @ [inst]\<rparr>"
  from Cons.prems p obtain l where l: "d id_elem = Some l"
    by (cases "d id_elem") auto
  from Cons.prems p l consider
      (imp) "l = ''IMPLAUSIBLE''" "merge_loop d ps (?df\<lparr>label_col := label_col ?df @ [0]\<rparr>) = Inr df'"
    | (neu) "l = ''NEUTRAL''" "merge_loop d ps (?df\<lparr>label_col := label_col ?df @ [1]\<rparr>) = Inr df'"
    | (pla) "l = ''PLAUSIBLE''" "merge_loop d ps (?df\<lparr>label_col := label_col ?df @ [2]\<rparr>) = Inr df'"
    by (auto simp: Let_def split: if_splits)
  then show ?case
  proof cases
    case imp
    from Cons.IH [OF imp(2)] show ?thesis using p l imp(1) by (auto simp: list_all2_Cons1)
  next
    case neu
    from Cons.IH [OF neu(2)] show ?thesis using p l neu(1) by (auto simp: list_all2_Cons1)
  next
    case pla
    from Cons.IH [OF pla(2)] show ?thesis using p l pla(1) by (auto simp: list_all2_Cons1)
  qed
qed

lemma merge_loop_step:
  "label_ok (d id_elem) \<Longrightarrow> \<exists>df'. merge_loop d ((id_elem, inst) # ps) df = merge_loop d ps df'"
  unfolding label_ok_def by (auto simp: Let_def)

lemma merge_loop_total:
  "\<forall>p\<in>set ps. label_ok (d (fst p)) \<Longrightarrow> \<exists>df'. merge_loop d ps df = Inr df'"
proof (induction ps arbitrary: df)
  case Nil
  then show ?case by simp
next
  case (Cons p ps)
  obtain id_elem inst where p: "p = (id_elem, inst)" by (cases p)
  from Cons.prems p have "label_ok (d id_elem)" by simp
  then obtain df1 where "merge_loop d ((id_elem, inst) # ps) df = merge_loop d ps df1"
    using merge_loop_step by blast
  moreover from Cons.prems have "\<forall>p\<in>set ps. label_ok (d (fst p))" by simp
  then have "\<exists>df'. merge_loop d ps df1 = Inr df'" by (rule Cons.IH)
  ultimately show ?case using p by simp
qed

lemma merge_loop_invalid_at:
  "k < length ps \<Longrightarrow> \<forall>j<k. label_ok (d (fst (ps ! j))) \<Longrightarrow> d (fst (ps ! k)) = Some l \<Longrightarrow>
   \<not> label_ok (Some l) \<Longrightarrow>
   merge_loop d ps df = Inl (ValueError (NotAValidPlausibilityClass l))"
proof (induction ps arbitrary: k df)
  case Nil
  then show ?case by simp
next
  case (Cons p ps)
  obtain id_elem inst where p: "p = (id_elem, inst)" by (cases p)
  show ?case
  proof (cases k)
    case 0
    with Cons.prems p show ?thesis by (auto simp: label_ok_def Let_def)
  next
    case (Suc k')
    with Cons.prems p have "label_ok (d id_elem)" by fastforce
    then obtain df' where step: "merge_loop d (p # ps) df = merge_loop d ps df'"
      using merge_loop_step p by blast
    have "merge_loop d ps df' = Inl (ValueError (NotAValidPlausibilityClass l))"
    proof (rule Cons.IH)
      show "k' < length ps" using Cons.prems(1) Suc by simp
      show "\<forall>j<k'. label_ok (d (fst (ps ! j)))" using Cons.prems(2) Suc by fastforce
      show "d (fst (ps ! k')) = Some l" using Cons.prems(3) Suc by simp
      show "\<not> label_ok (Some l)" by fact
    qed
    with step show ?thesis by simp
  qed
qed

lemma merge_loop_missing_at:
  "k < length ps \<Longrightarrow> \<forall>j<k. label_ok (d (fst (ps ! j))) \<Longrightarrow> d (fst (ps ! k)) = None \<Longrightarrow>
   merge_loop d ps df = Inl (KeyError (fst (ps ! k)))"
proof (induction ps arbitrary: k df)
  case Nil
  then show ?case by simp
next
  case (Cons p ps)
  obtain id_elem inst where p: "p = (id_elem, inst)" by (cases p)
  show ?case
  proof (cases k)
    case 0
    with Cons.prems p show ?thesis by (auto simp: Let_def)
  next
    case (Suc k')
    with Cons.prems p have "label_ok (d id_elem)" by fastforce
    then obtain df' where step: "merge_loop d (p # ps) df = merge_loop d ps df'"
      using merge_loop_step p by blast
    have "merge_loop d ps df' = Inl (KeyError (fst (ps ! k')))"
    proof (rule Cons.IH)
      show "k' < length ps" using Cons.prems(1) Suc by simp
      show "\<forall>j<k'. label_ok (d (fst (ps ! j)))" using Cons.prems(2) Suc by fastforce
      show "d (fst (ps ! k')) = None" using Cons.prems(3) Suc by simp
    qed
    with step Suc show ?thesis by simp
  qed
qed

lemma merge_loop_fails:
  "p \<in> set ps \<Longrightarrow> d (fst p) = None \<Longrightarrow> \<exists>e. merge_loop d ps df = Inl e"
proof (induction ps arbitrary: df)
  case Nil
  then show ?case by simp
next
  case (Cons q ps)
  obtain id_elem inst where q: "q = (id_elem, inst)" by (cases q)
  show ?case
  proof (cases "p = q")
    case True
    with Cons.prems q show ?thesis by (auto simp: Let_def)
  next
    case False
    with Cons.prems have "\<And>df. \<exists>e. merge_loop d ps df = Inl e"
      by (intro Cons.IH) auto
    then show ?thesis using q by (auto simp: Let_def split: option.splits)
  qed
qed

lemma retrieve_same_length:
  "retrieve_instances_from_dataset ds uc fm = Inr (ids, insts) \<Longrightarrow> length insts = length ids"
  unfolding retrieve_instances_from_dataset_def row_loop_Inr_iff
  by (simp add: length_concat comp_def)

subsection \<open>Cutting at single spaces and joining\<close>

lemma sos_nonempty [simp]: "split_on_space s \<noteq> []"
  by (induction s) (auto split: list.splits)

lemma sos_no_space: "CHR '' '' \<notin> set s \<Longrightarrow> split_on_space s = [s]"
  by (induction s) auto

lemma sos_append_space: "split_on_space (a @ CHR '' '' # b) = split_on_space a @ split_on_space b"
  by (induction a) (auto split: list.splits)

lemma join_strs_Cons: "ys \<noteq> [] \<Longrightarrow> join_strs sep (x # ys) = x @ sep @ join_strs sep ys"
  by (cases ys) auto

lemma join_strs_append:
  "xs \<noteq> [] \<Longrightarrow> ys \<noteq> [] \<Longrightarrow> join_strs sep (xs @ ys) = join_strs sep xs @ sep @ join_strs sep ys"
proof (induction xs)
  case Nil
  then show ?case by simp
next
  case (Cons x xs)
  show ?case
  proof (cases "xs = []")
    case True
    with Cons.prems show ?thesis by (simp add: join_strs_Cons)
  next
    case False
    with Cons show ?thesis by (simp add: join_strs_Cons)
  qed
qed

lemma sos_join:
  "xs \<noteq> [] \<Longrightarrow> split_on_space (join_strs '' '' xs) = concat (map split_on_space xs)"
proof (induction xs)
  case Nil
  then show ?case by simp
next
  case (Cons x xs)
  show ?case
  proof (cases "xs = []")
    case True
    then show ?thesis by simp
  next
    case False
    with Cons.IH have "split_on_space (join_strs '' '' xs) = concat (map split_on_space xs)"
      by simp
    with False show ?thesis
      using sos_append_space [of x "join_strs '' '' xs"] by (simp add: join_strs_Cons)
  qed
qed

lemma join_sos: "join_strs '' '' (split_on_space s) = s"
proof (induction s)
  case Nil
  then show ?case by simp
next
  case (Cons c cs)
  show ?case
  proof (cases "c = CHR '' ''")
    case True
    with Cons show ?thesis by (simp add: join_strs_Cons)
  next
    case False
    obtain t ts where ts: "split_on_space cs = t # ts"
      using sos_nonempty [of cs] by (cases "split_on_space cs") auto
    with Cons have "join_strs '' '' (t # ts) = cs" by simp
    then have "join_strs '' '' ((c # t) # ts) = c # cs"
      by (cases ts) auto
    with False ts show ?thesis by simp
  qed
qed

lemma join_concat_sos:
  "xs \<noteq> [] \<Longrightarrow> join_strs '' '' (concat (map split_on_space xs)) = join_strs '' '' xs"
proof (induction xs)
  case Nil
  then show ?case by simp
next
  case (Cons x xs)
  show ?case
  proof (cases "xs = []")
    case True
    then show ?thesis by (simp add: join_sos)
  next
    case False
    then have ne: "concat (map split_on_space xs) \<noteq> []"
      by (cases xs) auto
    from False Cons.IH have "join_strs '' '' (concat (map split_on_space xs)) = join_strs '' '' xs"
      by simp
    with False ne show ?thesis
      by (simp add: join_strs_append join_sos join_strs_Cons)
  qed
qed

subsection \<open>Replacing a token of a joined sentence\<close>

lemma sublist_across_space:
  assumes "old \<noteq> []" "CHR '' '' \<notin> set old"
  shows "sublist old (a @ CHR '' '' # b) \<longleftrightarrow> sublist old a \<or> sublist old b"
proof
  assume "sublist old (a @ CHR '' '' # b)"
  then consider "sublist old a" | "sublist old (CHR '' '' # b)"
    | xs1 xs2 where "old = xs1 @ xs2" "suffix xs1 a" "prefix xs2 (CHR '' '' # b)"
    by (auto simp: sublist_append)
  then show "sublist old a \<or> sublist old b"
  proof cases
    case 1
    then show ?thesis by simp
  next
    case 2
    then have "prefix old (CHR '' '' # b) \<or> sublist old b" by (simp add: sublist_Cons_right)
    moreover have "\<not> prefix old (CHR '' '' # b)"
      using assms by (cases old) auto
    ultimately show ?thesis by simp
  next
    case 3
    have "xs2 = []"
    proof (cases xs2)
      case Nil
      then show ?thesis .
    next
      case (Cons c cs)
      with 3(3) have "c = CHR '' ''" by simp
      with Cons 3(1) assms(2) show ?thesis by simp
    qed
    with 3 have "suffix old a" by simp
    then show ?thesis by (auto intro: suffix_imp_sublist)
  qed
next
  assume "sublist old a \<or> sublist old b"
  then show "sublist old (a @ CHR '' '' # b)"
    by (metis sublist_append sublist_Cons_right)
qed

lemma sublist_join:
  assumes "old \<noteq> []" "CHR '' '' \<notin> set old"
  shows "sublist old (join_strs '' '' ts) \<longleftrightarrow> (\<exists>t\<in>set ts. sublist old t)"
proof (induction ts)
  case Nil
  with assms show ?case by simp
next
  case (Cons t ts)
  show ?case
  proof (cases "ts = []")
    case True
    then show ?thesis by simp
  next
    case False
    then have "join_strs '' '' (t # ts) = t @ CHR '' '' # join_strs '' '' ts"
      by (simp add: join_strs_Cons)
    with Cons show ?thesis by (simp add: sublist_across_space [OF assms])
  qed
qed

lemma not_sublist_butlast: "old \<noteq> [] \<Longrightarrow> \<not> sublist old (butlast old)"
proof
  assume "old \<noteq> []" "sublist old (butlast old)"
  then obtain ps ss where "butlast old = ps @ old @ ss" by (auto simp: sublist_def)
  then have "length (butlast old) = length ps + length old + length ss" by simp
  then have eq: "length old - 1 = length ps + length old + length ss"
    by (simp only: length_butlast)
  have "0 < length old" using \<open>old \<noteq> []\<close> by simp
  with eq show False by arith
qed

lemma replace_ne_token:
  assumes "old \<noteq> []" "CHR '' '' \<notin> set old"
    and "\<forall>t\<in>set pre \<union> set post. \<not> sublist old t"
  shows "replace_ne old new (join_strs '' '' (pre @ old # post))
         = join_strs '' '' (pre @ new # post)"
proof -
  have tail: "replace_ne old new (old @ b) = new @ b" if "\<not> sublist old b" for b
    using replace_ne_first [of old "[]" new b] assms(1) that
    by (simp add: not_sublist_butlast replace_ne_absent)
  have post: "join_strs '' '' (x # post) = x @ (if post = [] then [] else CHR '' '' # join_strs '' '' post)" for x
    by (cases post) auto
  have nb: "\<not> sublist old (if post = [] then [] else CHR '' '' # join_strs '' '' post)"
    using assms sublist_across_space [OF assms(1,2), of "[]" "join_strs '' '' post"]
    by (auto simp: sublist_join)
  show ?thesis
  proof (cases "pre = []")
    case True
    then show ?thesis using tail [OF nb] by (simp add: post)
  next
    case False
    have "\<not> sublist old (join_strs '' '' pre @ CHR '' '' # butlast old)"
      using assms by (simp add: sublist_across_space sublist_join not_sublist_butlast)
    then have "\<not> sublist old ((join_strs '' '' pre @ '' '') @ butlast old)" by simp
    from replace_ne_first [OF assms(1) this, of new]
    have "replace_ne old new ((join_strs '' '' pre @ '' '') @ old @ (if post = [] then [] else CHR '' '' # join_strs '' '' post))
      = (join_strs '' '' pre @ '' '') @ new @ (if post = [] then [] else CHR '' '' # join_strs '' '' post)"
      using nb by (simp add: replace_ne_absent)
    then show ?thesis
      using False by (simp add: join_strs_append post)
  qed
qed

subsection \<open>The value of the marker insertion\<close>

lemma str_items_map: "str_items k (map PyStr xs) = Inr xs"
  by (induction xs arbitrary: k) auto

lemma py_join_map: "py_join sep (map PyStr xs) = Inr (join_strs sep xs)"
  by (simp add: py_join_def str_items_map)

lemma insert_tokens:
  assumes "i < length toks"
  shows "py_insert i (PyStr m0) (py_insert i (PyStr f) ((map PyStr toks)[i := PyStr m1]))
         = map PyStr (take i toks @ [m0, f, m1] @ drop (Suc i) toks)"
proof -
  let ?pre = "map PyStr (take i toks)"
  have len: "length ?pre = i" using assms by simp
  have upd: "(map PyStr toks)[i := PyStr m1] = ?pre @ PyStr m1 # map PyStr (drop (Suc i) toks)"
    using assms by (simp add: upd_conv_take_nth_drop take_map drop_map)
  have ins: "py_insert i x (?pre @ rest) = ?pre @ x # rest" for x rest
    using len by (simp add: py_insert_def)
  show ?thesis by (simp only: upd ins) simp
qed

lemma insert_filler_markers_tokens:
  assumes "blank \<in> set (py_split sentence)"
  shows "\<exists>pre post. py_split sentence = pre @ blank # post \<and> blank \<notin> set pre \<and>
     insert_filler_markers sentence filler (PyTuple [PyStr m0, PyStr m1])
       = Inr (join_strs '' '' (pre @ [m0, filler, m1] @ post))"
proof -
  let ?toks = "py_split sentence"
  from py_index_present [OF assms] obtain i where
    i: "py_index blank ?toks = Inr i" "i < length ?toks" "?toks ! i = blank"
       "blank \<notin> set (take i ?toks)"
    by blast
  have split: "?toks = take i ?toks @ blank # drop (Suc i) ?toks"
    using i(2,3) by (metis id_take_nth_drop)
  have "insert_filler_markers_try sentence filler (PyTuple [PyStr m0, PyStr m1])
        = py_join '' '' (py_insert i (PyStr m0) (py_insert i (PyStr filler)
             ((map PyStr ?toks)[i := PyStr m1])))"
    using i(1) by (simp add: insert_filler_markers_try_def Let_def)
  also have "\<dots> = Inr (join_strs '' '' (take i ?toks @ [m0, filler, m1] @ drop (Suc i) ?toks))"
    by (simp only: insert_tokens [OF i(2)] py_join_map)
  finally have "insert_filler_markers sentence filler (PyTuple [PyStr m0, PyStr m1])
      = Inr (join_strs '' '' (take i ?toks @ [m0, filler, m1] @ drop (Suc i) ?toks))"
    by (simp add: insert_filler_markers_def)
  with split i(4) show ?thesis by blast
qed

text \<open>
  Whenever the sentence has the blank token and the markers are not a tuple of length two,
  the \<^verbatim>\<open>try\<close> block raises the error for the markers and the handler replaces it.
\<close>

lemma invalid_markers_masked:
  assumes "blank \<in> set (py_split sentence)"
    and "\<forall>items. filler_markers = PyTuple items \<longrightarrow> length items \<noteq> 2"
  shows "insert_filler_markers_try sentence filler filler_markers
           = Inl (ValueError (SpecialTokensNotValid filler_markers))"
    and "insert_filler_markers sentence filler filler_markers
           = Inl (ValueError (DoesNotContainBlank sentence))"
proof -
  from py_index_present [OF assms(1)] obtain i where "py_index blank (py_split sentence) = Inr i"
    by blast
  with assms(2) show "insert_filler_markers_try sentence filler filler_markers
           = Inl (ValueError (SpecialTokensNotValid filler_markers))"
    by (cases filler_markers) (simp_all add: insert_filler_markers_try_def)
  then show "insert_filler_markers sentence filler filler_markers
           = Inl (ValueError (DoesNotContainBlank sentence))"
    by (simp add: insert_filler_markers_def)
qed

subsection \<open>Every sentence is a list of pieces joined by the blank\<close>

text \<open>
  The pieces are cut at the occurrences that \<^verbatim>\<open>str.replace\<close> finds, from left to right:
  no occurrence starts inside a piece.
\<close>

lemma first_occurrence:
  "old \<noteq> [] \<Longrightarrow> sublist old s \<Longrightarrow>
   \<exists>a b. s = a @ old @ b \<and> \<not> sublist old (a @ butlast old)"
proof (induction s)
  case Nil
  then show ?case by simp
next
  case (Cons c cs)
  show ?case
  proof (cases "prefix old (c # cs)")
    case True
    then obtain b where "c # cs = old @ b" by (auto simp: prefix_def)
    then have "c # cs = [] @ old @ b \<and> \<not> sublist old ([] @ butlast old)"
      using Cons.prems(1) by (simp add: not_sublist_butlast)
    then show ?thesis by blast
  next
    case False
    with Cons.prems have "sublist old cs" by (simp add: sublist_Cons_right)
    with Cons obtain a b where ab: "cs = a @ old @ b" "\<not> sublist old (a @ butlast old)"
      by blast
    have "\<not> prefix old (c # a @ butlast old)"
    proof
      assume "prefix old (c # a @ butlast old)"
      then have "prefix old ((c # a @ butlast old) @ (last old # b))"
        using prefix_prefix by blast
      moreover have "(c # a @ butlast old) @ (last old # b) = c # cs"
        using ab(1) Cons.prems(1) by simp
      ultimately show False using False by simp
    qed
    with ab(2) have "\<not> sublist old ((c # a) @ butlast old)" by (simp add: sublist_Cons_right)
    moreover have "c # cs = (c # a) @ old @ b" using ab(1) by simp
    ultimately show ?thesis by blast
  qed
qed

lemma pieces_exist:
  assumes "old \<noteq> []"
  shows "\<exists>segs. segs \<noteq> [] \<and> (\<forall>g\<in>set (butlast segs). \<not> sublist old (g @ butlast old)) \<and>
           \<not> sublist old (last segs) \<and> s = join_strs old segs"
proof (induction "length s" arbitrary: s rule: less_induct)
  case less
  show ?case
  proof (cases "sublist old s")
    case False
    then have "[s] \<noteq> [] \<and> (\<forall>g\<in>set (butlast [s]). \<not> sublist old (g @ butlast old)) \<and>
           \<not> sublist old (last [s]) \<and> s = join_strs old [s]" by simp
    then show ?thesis by blast
  next
    case True
    from first_occurrence [OF assms True] obtain a b where
      ab: "s = a @ old @ b" "\<not> sublist old (a @ butlast old)" by blast
    with assms have "length b < length s" by simp
    from less [OF this] obtain segs where segs: "segs \<noteq> []"
      "\<forall>g\<in>set (butlast segs). \<not> sublist old (g @ butlast old)"
      "\<not> sublist old (last segs)" "b = join_strs old segs" by blast
    have "a # segs \<noteq> [] \<and> (\<forall>g\<in>set (butlast (a # segs)). \<not> sublist old (g @ butlast old)) \<and>
           \<not> sublist old (last (a # segs)) \<and> s = join_strs old (a # segs)"
      using segs ab by (simp add: join_strs_Cons)
    then show ?thesis by blast
  qed
qed

section \<open>Filler marker insertion: claims\<close>

text \<open>
  C6: \<^verbatim>\<open>insert_filler_markers("This is a ______ example.", "really simple", ("[F]", "[/F]"))\<close>
  returns exactly \<^verbatim>\<open>"This is a [F] really simple [/F] example."\<close>.
\<close>

theorem insert_filler_markers_example:
  "insert_filler_markers ''This is a ______ example.'' ''really simple''
     (PyTuple [PyStr ''[F]'', PyStr ''[/F]''])
   = Inr ''This is a [F] really simple [/F] example.''"
  by (simp add: insert_filler_markers_def insert_filler_markers_try_def py_split_def
      is_space_def blank_def py_insert_def py_join_def)

text \<open>
  C7: for every sentence whose whitespace tokenization does not contain the blank token,
  \<^verbatim>\<open>insert_filler_markers\<close> raises the \<^verbatim>\<open>ValueError\<close> "Sentence ... does not contain blank."
  that names the sentence, whatever the filler and the markers are.
\<close>

theorem insert_filler_markers_missing_blank:
  "blank \<notin> set (py_split sentence) \<Longrightarrow>
   insert_filler_markers sentence filler filler_markers
   = Inl (ValueError (DoesNotContainBlank sentence))"
  by (simp add: insert_filler_markers_def insert_filler_markers_try_def py_index_absent)

theorem insert_filler_markers_missing_blank_witness:
  "blank \<notin> set (py_split ''no blank here'') \<and>
   insert_filler_markers ''no blank here'' ''x'' markers_F
   = Inl (ValueError (DoesNotContainBlank ''no blank here''))"
  using insert_filler_markers_missing_blank [of "''no blank here''" "''x''" markers_F]
  by (simp add: py_split_def is_space_def blank_def)

text \<open>
  C1: a marker argument that is not a two-element tuple of strings should give the error
  that names the marker value. The sentence \<^verbatim>\<open>"a ______ b"\<close> has the blank token. With the
  string \<^verbatim>\<open>"[F]"\<close> or with a tuple of three strings as markers, the \<^verbatim>\<open>ValueError\<close> raised for
  the markers is caught by the \<^verbatim>\<open>except ValueError\<close> clause and the call raises the
  missing-blank error; with a tuple of two integers the type test passes and \<^verbatim>\<open>join\<close> raises
  a \<^verbatim>\<open>TypeError\<close>.
\<close>

theorem insert_filler_markers_invalid_markers_masked:
  "insert_filler_markers_try ''a ______ b'' ''x'' (PyStr ''[F]'')
     = Inl (ValueError (SpecialTokensNotValid (PyStr ''[F]''))) \<and>
   insert_filler_markers ''a ______ b'' ''x'' (PyStr ''[F]'')
     = Inl (ValueError (DoesNotContainBlank ''a ______ b'')) \<and>
   insert_filler_markers ''a ______ b'' ''x'' (PyTuple [PyStr ''<'', PyStr ''|'', PyStr ''>''])
     = Inl (ValueError (DoesNotContainBlank ''a ______ b'')) \<and>
   insert_filler_markers ''a ______ b'' ''x'' (PyTuple [PyInt 1, PyInt 2])
     = Inl (TypeError (JoinExpectedStr 1 (PyInt 1)))"
  by (simp add: insert_filler_markers_def insert_filler_markers_try_def py_split_def
      is_space_def blank_def py_insert_def py_join_def)

section \<open>Instance builder: claims\<close>

text \<open>
  C5: whenever \<^verbatim>\<open>retrieve_instances_from_dataset\<close> returns, the id list holds, per row and
  in row order, the five ids \<^verbatim>\<open>{Id}_1\<close> to \<^verbatim>\<open>{Id}_5\<close> in that order (a missing id cell
  counts as the empty string), and the instance list has the length of the id list. It
  returns for every dataset when no markers are given.
\<close>

theorem retrieve_five_ids_per_row:
  "(\<not> truthy fm \<longrightarrow>
      (\<exists>ids insts. retrieve_instances_from_dataset ds uc fm = Inr (ids, insts))) \<and>
   (retrieve_instances_from_dataset ds uc fm = Inr (ids, insts) \<longrightarrow>
      ids = concat (map (\<lambda>r. map (\<lambda>k. fill (Id_col r) @ ''_'' @ k)
                                [''1'', ''2'', ''3'', ''4'', ''5'']) ds) \<and>
      length ids = 5 * length ds \<and> length insts = length ids)"
proof (intro conjI impI)
  assume "\<not> truthy fm"
  then have "\<forall>r\<in>set (map fillna ds). \<forall>i\<in>set [1 ..< 6]. \<not> isl (sent_with_filler r i fm)"
    by (auto simp: sent_with_filler_def row_filler_def)
  then show "\<exists>ids insts. retrieve_instances_from_dataset ds uc fm = Inr (ids, insts)"
    unfolding retrieve_instances_from_dataset_def row_loop_Inr_iff by blast
next
  assume "retrieve_instances_from_dataset ds uc fm = Inr (ids, insts)"
  note closed = this [unfolded retrieve_instances_from_dataset_def row_loop_Inr_iff]
  have id: "Id_col (fillna r) = fill (Id_col r)" for r
    by (simp add: fillna_def)
  from closed show ids:
    "ids = concat (map (\<lambda>r. map (\<lambda>k. fill (Id_col r) @ ''_'' @ k)
                              [''1'', ''2'', ''3'', ''4'', ''5'']) ds)"
    by (simp add: upt_1_6 str_nat_digits id comp_def)
  show len: "length ids = 5 * length ds"
    unfolding ids by (induction ds) auto
  from closed have "length insts = 5 * length ds"
    by (simp add: upt_1_6 length_concat comp_def sum_list_triv)
  with len show "length insts = length ids" by simp
qed

theorem retrieve_five_ids_per_row_witness:
  "\<not> truthy PyNone \<and>
   retrieve_instances_from_dataset [row_placeholder] False markers_F
   = Inr ([''7_1'', ''7_2'', ''7_3'', ''7_4'', ''7_5''],
          [''x [F] a [/F]'', ''x [F] b [/F]'', ''x [F] c [/F]'', ''x [F] d [/F]'',
           ''x [F] e [/F]'']) \<and>
   (\<exists>ids insts. retrieve_instances_from_dataset [row_placeholder] False PyNone
      = Inr (ids, insts))"
  using retrieve_five_ids_per_row [of PyNone "[row_placeholder]" False]
    retrieve_five_ids_per_row [of markers_F "[row_placeholder]" False
      "[''7_1'', ''7_2'', ''7_3'', ''7_4'', ''7_5'']"
      "[''x [F] a [/F]'', ''x [F] b [/F]'', ''x [F] c [/F]'', ''x [F] d [/F]'',
        ''x [F] e [/F]'']"]
  by (simp add: eval_defs row_placeholder_def)

text \<open>
  C2: with context enabled, the literal \<^verbatim>\<open>(...)\<close> should be absent from the assembled
  context. For a row whose previous context is \<^verbatim>\<open>(...)\<close> every assembled text still holds
  it: the result of \<^verbatim>\<open>context.replace("(...)", "")\<close> is dropped.
\<close>

theorem retrieve_keeps_placeholder:
  "retrieve_instances_from_dataset [row_placeholder] True PyNone
   = Inr ([''7_1'', ''7_2'', ''7_3'', ''7_4'', ''7_5''],
          [''T'' @ sep_title @ ''H'' @ sep_line @ ''(...)'' @ sep_line @ ''x a'',
           ''T'' @ sep_title @ ''H'' @ sep_line @ ''(...)'' @ sep_line @ ''x b'',
           ''T'' @ sep_title @ ''H'' @ sep_line @ ''(...)'' @ sep_line @ ''x c'',
           ''T'' @ sep_title @ ''H'' @ sep_line @ ''(...)'' @ sep_line @ ''x d'',
           ''T'' @ sep_title @ ''H'' @ sep_line @ ''(...)'' @ sep_line @ ''x e''])"
  by (simp add: eval_defs row_placeholder_def)




text \<open>
  C10: when no markers are supplied (\<^verbatim>\<open>filler_markers\<close> is false), the builder returns for
  every dataset, with or without context, and a sentence \<open>s0 ______ s1 ______ ... sn\<close> (the
  pieces \<open>segs\<close> joined by the blank, where the blank occurs in no piece and does not start
  inside a piece) becomes \<open>s0 filler s1 filler ... sn\<close>: every occurrence is replaced,
  wherever it stands in a token. With a single piece the sentence has no blank and is
  emitted as it is. Without context the text of the instance is this sentence; with context
  it is this sentence between the title, the section header and the previous context before
  it and the follow-up context, when there is one, after it. Every sentence has such a list
  of pieces (lemma \<open>pieces_exist\<close>).
\<close>

theorem retrieve_plain_replace_all:
  assumes "\<not> truthy fm" "k < length ds" "i < 5"
    and "segs \<noteq> []" "\<forall>g\<in>set (butlast segs). \<not> sublist blank (g @ butlast blank)"
    "\<not> sublist blank (last segs)"
    and "fill (Sentence_col (ds ! k)) = join_strs blank segs"
  shows "\<exists>filler ids insts. row_filler (fillna (ds ! k)) (Suc i) = Inr filler \<and>
     sent_with_filler (fillna (ds ! k)) (Suc i) fm = Inr (join_strs filler segs) \<and>
     retrieve_instances_from_dataset ds uc fm = Inr (ids, insts) \<and>
     insts ! (5 * k + i) =
       (if \<not> uc then join_strs filler segs
        else if fill (Follow_up_context_col (ds ! k)) = []
        then fill (Article_title_col (ds ! k)) @ sep_title @ fill (Section_header_col (ds ! k)) @ sep_line @
             fill (Previous_context_col (ds ! k)) @ sep_line @ join_strs filler segs
        else fill (Article_title_col (ds ! k)) @ sep_title @ fill (Section_header_col (ds ! k)) @ sep_line @
             fill (Previous_context_col (ds ! k)) @ sep_line @ join_strs filler segs @ sep_line @
             fill (Follow_up_context_col (ds ! k)))"
proof -
  from assms(3) have "\<exists>filler. row_filler (fillna (ds ! k)) (Suc i) = Inr filler"
    by (rule row_filler_Inr)
  then obtain filler where f: "row_filler (fillna (ds ! k)) (Suc i) = Inr filler" ..
  have "\<forall>r\<in>set (map fillna ds). \<forall>i\<in>set [1 ..< 6]. \<not> isl (sent_with_filler r i fm)"
    using assms(1) by (auto simp: sent_with_filler_def row_filler_def)
  then obtain ids insts where r: "retrieve_instances_from_dataset ds uc fm = Inr (ids, insts)"
    unfolding retrieve_instances_from_dataset_def row_loop_Inr_iff by blast
  have "blank \<noteq> []" by (simp add: blank_def)
  then have "py_replace (join_strs blank segs) blank filler = join_strs filler segs"
    using assms(4-6) by (simp add: py_replace_def replace_ne_join)
  with f assms(1,7) have s: "sent_with_filler (fillna (ds ! k)) (Suc i) fm = Inr (join_strs filler segs)"
    by (simp add: sent_with_filler_def fillna_def)
  with retrieve_nth [OF r assms(2,3)]
  have "insts ! (5 * k + i) =
      (if uc then with_context (fillna (ds ! k)) (join_strs filler segs) else join_strs filler segs)"
    by simp
  then have "insts ! (5 * k + i) =
       (if \<not> uc then join_strs filler segs
        else if fill (Follow_up_context_col (ds ! k)) = []
        then fill (Article_title_col (ds ! k)) @ sep_title @ fill (Section_header_col (ds ! k)) @ sep_line @
             fill (Previous_context_col (ds ! k)) @ sep_line @ join_strs filler segs
        else fill (Article_title_col (ds ! k)) @ sep_title @ fill (Section_header_col (ds ! k)) @ sep_line @
             fill (Previous_context_col (ds ! k)) @ sep_line @ join_strs filler segs @ sep_line @
             fill (Follow_up_context_col (ds ! k)))"
    by (simp add: with_context_def fillna_def)
  with f s r show ?thesis by blast
qed

theorem retrieve_plain_replace_all_witness:
  "\<not> truthy PyNone \<and> (0::nat) < length [row_followup] \<and> (2::nat) < 5 \<and> (1::nat) < 5 \<and>
   [''a'', ''b '', ''''] \<noteq> [] \<and>
   \<not> sublist blank (''a'' @ butlast blank) \<and>
   \<not> sublist blank (''b '' @ butlast blank) \<and>
   \<not> sublist blank (last [''a'', ''b '', '''']) \<and>
   fill (Sentence_col ([row_followup] ! 0)) = join_strs blank [''a'', ''b '', ''''] \<and>
   row_filler (fillna ([row_followup] ! 0)) (Suc 2) = Inr [] \<and>
   row_filler (fillna ([row_followup] ! 0)) (Suc 1) = Inr ''w'' \<and>
   sent_with_filler (fillna ([row_followup] ! 0)) (Suc 2) PyNone = Inr ''ab '' \<and>
   sent_with_filler (fillna ([row_followup] ! 0)) (Suc 1) PyNone = Inr ''awb w'' \<and>
   retrieve_instances_from_dataset [row_followup] False PyNone
     = Inr ([''8_1'', ''8_2'', ''8_3'', ''8_4'', ''8_5''],
            [''avb v'', ''awb w'', ''ab '', ''ayb y'', ''azb z'']) \<and>
   retrieve_instances_from_dataset [row_followup] True PyNone
     = Inr ([''8_1'', ''8_2'', ''8_3'', ''8_4'', ''8_5''],
            [''T'' @ sep_title @ sep_line @ ''P'' @ sep_line @ ''avb v'' @ sep_line @ ''after'',
             ''T'' @ sep_title @ sep_line @ ''P'' @ sep_line @ ''awb w'' @ sep_line @ ''after'',
             ''T'' @ sep_title @ sep_line @ ''P'' @ sep_line @ ''ab '' @ sep_line @ ''after'',
             ''T'' @ sep_title @ sep_line @ ''P'' @ sep_line @ ''ayb y'' @ sep_line @ ''after'',
             ''T'' @ sep_title @ sep_line @ ''P'' @ sep_line @ ''azb z'' @ sep_line @ ''after''])"
  using retrieve_plain_replace_all [where fm = PyNone and k = 0 and ds = "[row_followup]"
      and i = 2 and segs = "[''a'', ''b '', '''']" and uc = False]
    retrieve_plain_replace_all [where fm = PyNone and k = 0 and ds = "[row_followup]"
      and i = 1 and segs = "[''a'', ''b '', '''']" and uc = True]
  by (simp add: eval_defs row_followup_def sublist_Cons_right)


section \<open>Label merger: claims\<close>

text \<open>
  C4: \<^verbatim>\<open>merge_data\<close> looks up the label of every id that the instance builder produced, in
  their order. When each of these labels is IMPLAUSIBLE, NEUTRAL or PLAUSIBLE, it returns a
  table whose ids and texts are the builder's and whose label column holds, for every id,
  the code 0 for IMPLAUSIBLE, 1 for NEUTRAL and 2 for PLAUSIBLE; and whenever it returns a
  table, the table is of this form. When the loop reaches an id whose label is any other
  string (every id before it having one of the three labels), \<^verbatim>\<open>merge_data\<close> raises the
  \<^verbatim>\<open>ValueError\<close> "Label ... is not a valid plausibility class." that names the label.
\<close>

theorem merge_data_label_codes:
  "(retrieve_instances_from_dataset instances_df uc fm = Inr (ids, insts) \<and>
    (\<forall>id_elem\<in>set ids. label_ok (label_dict_of labels_df id_elem)) \<longrightarrow>
      (\<exists>df'. merge_data instances_df labels_df uc fm = Inr df' \<and>
         ids_col df' = ids \<and> text_col df' = insts \<and>
         list_all2 (\<lambda>id_elem code.
             (label_dict_of labels_df id_elem = Some ''IMPLAUSIBLE'' \<and> code = 0) \<or>
             (label_dict_of labels_df id_elem = Some ''NEUTRAL'' \<and> code = 1) \<or>
             (label_dict_of labels_df id_elem = Some ''PLAUSIBLE'' \<and> code = 2))
           ids (label_col df'))) \<and>
   (merge_data instances_df labels_df uc fm = Inr df \<longrightarrow>
      retrieve_instances_from_dataset instances_df uc fm = Inr (ids_col df, text_col df) \<and>
      list_all2 (\<lambda>id_elem code.
          (label_dict_of labels_df id_elem = Some ''IMPLAUSIBLE'' \<and> code = 0) \<or>
          (label_dict_of labels_df id_elem = Some ''NEUTRAL'' \<and> code = 1) \<or>
          (label_dict_of labels_df id_elem = Some ''PLAUSIBLE'' \<and> code = 2))
        (ids_col df) (label_col df)) \<and>
   (retrieve_instances_from_dataset instances_df uc fm = Inr (ids, insts) \<and> k < length ids \<and>
    (\<forall>j<k. label_ok (label_dict_of labels_df (ids ! j))) \<and>
    label_dict_of labels_df (ids ! k) = Some l \<and> \<not> label_ok (Some l) \<longrightarrow>
      merge_data instances_df labels_df uc fm = Inl (ValueError (NotAValidPlausibilityClass l)))"
proof -
  let ?d = "label_dict_of labels_df"
  let ?df0 = "\<lparr>ids_col = [], text_col = [], label_col = []\<rparr>"
  let ?P = "\<lambda>id_elem code.
          (?d id_elem = Some ''IMPLAUSIBLE'' \<and> code = (0::int)) \<or>
          (?d id_elem = Some ''NEUTRAL'' \<and> code = 1) \<or>
          (?d id_elem = Some ''PLAUSIBLE'' \<and> code = 2)"
  have shape: "retrieve_instances_from_dataset instances_df uc fm = Inr (ids_col t, text_col t) \<and>
      list_all2 ?P (ids_col t) (label_col t)"
    if ok: "merge_data instances_df labels_df uc fm = Inr t" for t
  proof -
    from ok obtain ids' insts' where
      r: "retrieve_instances_from_dataset instances_df uc fm = Inr (ids', insts')"
      and m: "merge_loop ?d (zip ids' insts') ?df0 = Inr t"
      by (auto simp: merge_data_def split: sum.splits)
    from r have len: "length insts' = length ids'" by (rule retrieve_same_length)
    from merge_loop_Inr [OF m] obtain codes where
      c: "ids_col t = map fst (zip ids' insts')" "text_col t = map snd (zip ids' insts')"
      "label_col t = codes"
      "list_all2 (\<lambda>p c. (?d (fst p) = Some ''IMPLAUSIBLE'' \<and> c = 0) \<or>
                        (?d (fst p) = Some ''NEUTRAL'' \<and> c = 1) \<or>
                        (?d (fst p) = Some ''PLAUSIBLE'' \<and> c = 2))
         (zip ids' insts') codes"
      by auto
    from c(1,2) len have "ids_col t = ids'" "text_col t = insts'" by simp_all
    moreover from c have "list_all2 ?P (ids_col t) (label_col t)"
      by (simp add: list_all2_map1)
    ultimately show ?thesis using r by simp
  qed
  have total: "\<exists>df'. merge_data instances_df labels_df uc fm = Inr df' \<and>
         ids_col df' = ids \<and> text_col df' = insts \<and> list_all2 ?P ids (label_col df')"
    if a: "retrieve_instances_from_dataset instances_df uc fm = Inr (ids, insts) \<and>
      (\<forall>id_elem\<in>set ids. label_ok (?d id_elem))"
  proof -
    from a have "\<forall>p\<in>set (zip ids insts). label_ok (?d (fst p))"
      by (auto dest: set_zip_leftD)
    then obtain t where "merge_loop ?d (zip ids insts) ?df0 = Inr t"
      using merge_loop_total by blast
    with a have t: "merge_data instances_df labels_df uc fm = Inr t"
      by (simp add: merge_data_def)
    from shape [OF t] a have "ids_col t = ids" "text_col t = insts" "list_all2 ?P ids (label_col t)"
      by auto
    with t show ?thesis by blast
  qed
  have invalid: "merge_data instances_df labels_df uc fm = Inl (ValueError (NotAValidPlausibilityClass l))"
    if a: "retrieve_instances_from_dataset instances_df uc fm = Inr (ids, insts) \<and> k < length ids \<and>
      (\<forall>j<k. label_ok (?d (ids ! j))) \<and> ?d (ids ! k) = Some l \<and> \<not> label_ok (Some l)"
  proof -
    from a have len: "length insts = length ids" by (auto dest: retrieve_same_length)
    have "merge_loop ?d (zip ids insts) ?df0 = Inl (ValueError (NotAValidPlausibilityClass l))"
      using a len by (intro merge_loop_invalid_at) auto
    with a show ?thesis by (simp add: merge_data_def)
  qed
  from shape total invalid show ?thesis by blast
qed

theorem merge_data_label_codes_witness:
  "retrieve_instances_from_dataset [row_placeholder, row_followup] False PyNone
     = Inr ([''7_1'', ''7_2'', ''7_3'', ''7_4'', ''7_5'', ''8_1'', ''8_2'', ''8_3'', ''8_4'', ''8_5''],
            [''x a'', ''x b'', ''x c'', ''x d'', ''x e'', ''avb v'', ''awb w'', ''ab '', ''ayb y'', ''azb z'']) \<and>
   label_ok (label_dict_of labels_two_rows ''7_1'') \<and> label_ok (label_dict_of labels_two_rows ''7_2'') \<and>
   label_ok (label_dict_of labels_two_rows ''7_3'') \<and> label_ok (label_dict_of labels_two_rows ''7_4'') \<and>
   label_ok (label_dict_of labels_two_rows ''7_5'') \<and> label_ok (label_dict_of labels_two_rows ''8_1'') \<and>
   label_ok (label_dict_of labels_two_rows ''8_2'') \<and> label_ok (label_dict_of labels_two_rows ''8_3'') \<and>
   label_ok (label_dict_of labels_two_rows ''8_4'') \<and> label_ok (label_dict_of labels_two_rows ''8_5'') \<and>
   merge_data [row_placeholder, row_followup] labels_two_rows False PyNone
     = Inr \<lparr>ids_col = [''7_1'', ''7_2'', ''7_3'', ''7_4'', ''7_5'', ''8_1'', ''8_2'', ''8_3'', ''8_4'', ''8_5''],
            text_col = [''x a'', ''x b'', ''x c'', ''x d'', ''x e'', ''avb v'', ''awb w'', ''ab '', ''ayb y'', ''azb z''],
            label_col = [0, 1, 2, 1, 2, 2, 0, 1, 0, 2]\<rparr> \<and>
   (7::nat) < length [''7_1'', ''7_2'', ''7_3'', ''7_4'', ''7_5'', ''8_1'', ''8_2'', ''8_3'', ''8_4'', ''8_5''] \<and>
   label_ok (label_dict_of labels_two_rows_maybe ''7_1'') \<and> label_ok (label_dict_of labels_two_rows_maybe ''7_2'') \<and>
   label_ok (label_dict_of labels_two_rows_maybe ''7_3'') \<and> label_ok (label_dict_of labels_two_rows_maybe ''7_4'') \<and>
   label_ok (label_dict_of labels_two_rows_maybe ''7_5'') \<and> label_ok (label_dict_of labels_two_rows_maybe ''8_1'') \<and>
   label_ok (label_dict_of labels_two_rows_maybe ''8_2'') \<and>
   label_dict_of labels_two_rows_maybe ''8_3'' = Some ''MAYBE'' \<and>
   \<not> label_ok (Some ''MAYBE'') \<and>
   merge_data [row_placeholder, row_followup] labels_two_rows_maybe False PyNone
     = Inl (ValueError (NotAValidPlausibilityClass ''MAYBE''))"
  using merge_data_label_codes [where instances_df = "[row_placeholder, row_followup]"
      and labels_df = labels_two_rows and uc = False and fm = PyNone
      and ids = "[''7_1'', ''7_2'', ''7_3'', ''7_4'', ''7_5'', ''8_1'', ''8_2'', ''8_3'', ''8_4'', ''8_5'']"
      and insts = "[''x a'', ''x b'', ''x c'', ''x d'', ''x e'', ''avb v'', ''awb w'', ''ab '', ''ayb y'', ''azb z'']"
      and df = "\<lparr>ids_col = [''7_1'', ''7_2'', ''7_3'', ''7_4'', ''7_5'', ''8_1'', ''8_2'', ''8_3'', ''8_4'', ''8_5''],
            text_col = [''x a'', ''x b'', ''x c'', ''x d'', ''x e'', ''avb v'', ''awb w'', ''ab '', ''ayb y'', ''azb z''],
            label_col = [0, 1, 2, 1, 2, 2, 0, 1, 0, 2]\<rparr>"]
    merge_data_label_codes [where instances_df = "[row_placeholder, row_followup]"
      and labels_df = labels_two_rows_maybe and uc = False and fm = PyNone
      and ids = "[''7_1'', ''7_2'', ''7_3'', ''7_4'', ''7_5'', ''8_1'', ''8_2'', ''8_3'', ''8_4'', ''8_5'']"
      and insts = "[''x a'', ''x b'', ''x c'', ''x d'', ''x e'', ''avb v'', ''awb w'', ''ab '', ''ayb y'', ''azb z'']"
      and k = 7 and l = "''MAYBE''"]
  by (simp add: eval_defs row_placeholder_def row_followup_def labels_two_rows_def
      labels_two_rows_maybe_def label_ok_def)

text \<open>
  C9: when an id produced by the instance builder is not a key of the label dictionary,
  \<^verbatim>\<open>merge_data\<close> raises and returns no table; when every id before it has a valid label,
  the exception is the \<^verbatim>\<open>KeyError\<close> of the lookup of that id.
\<close>

theorem merge_data_missing_label:
  assumes "retrieve_instances_from_dataset instances_df uc fm = Inr (ids, insts)"
    and "k < length ids" and "label_dict_of labels_df (ids ! k) = None"
  shows "(\<exists>e. merge_data instances_df labels_df uc fm = Inl e) \<and>
    ((\<forall>j<k. label_ok (label_dict_of labels_df (ids ! j))) \<longrightarrow>
       merge_data instances_df labels_df uc fm = Inl (KeyError (ids ! k)))"
proof -
  from assms(1) have len: "length insts = length ids" by (rule retrieve_same_length)
  let ?ps = "zip ids insts"
  let ?df0 = "\<lparr>ids_col = [], text_col = [], label_col = []\<rparr>"
  have m: "merge_data instances_df labels_df uc fm = merge_loop (label_dict_of labels_df) ?ps ?df0"
    using assms(1) by (simp add: merge_data_def)
  have "k < length ?ps" using assms(2) len by simp
  then have "?ps ! k \<in> set ?ps" by (rule nth_mem)
  moreover have "label_dict_of labels_df (fst (?ps ! k)) = None" using assms(2,3) len by simp
  ultimately have 1: "\<exists>e. merge_loop (label_dict_of labels_df) ?ps ?df0 = Inl e"
    by (rule merge_loop_fails)
  have 2: "merge_loop (label_dict_of labels_df) ?ps ?df0 = Inl (KeyError (ids ! k))"
    if "\<forall>j<k. label_ok (label_dict_of labels_df (ids ! j))"
  proof -
    have "merge_loop (label_dict_of labels_df) ?ps ?df0 = Inl (KeyError (fst (?ps ! k)))"
      using that assms(2,3) len by (intro merge_loop_missing_at) auto
    then show ?thesis using assms(2) len by simp
  qed
  from 1 2 show ?thesis unfolding m by blast
qed

theorem merge_data_missing_label_witness:
  "retrieve_instances_from_dataset [row_placeholder] False PyNone
     = Inr ([''7_1'', ''7_2'', ''7_3'', ''7_4'', ''7_5''],
            [''x a'', ''x b'', ''x c'', ''x d'', ''x e'']) \<and>
   (2::nat) < length [''7_1'', ''7_2'', ''7_3'', ''7_4'', ''7_5''] \<and>
   label_dict_of labels_missing ([''7_1'', ''7_2'', ''7_3'', ''7_4'', ''7_5''] ! 2) = None \<and>
   label_ok (label_dict_of labels_missing ([''7_1'', ''7_2'', ''7_3'', ''7_4'', ''7_5''] ! 0)) \<and>
   label_ok (label_dict_of labels_missing ([''7_1'', ''7_2'', ''7_3'', ''7_4'', ''7_5''] ! 1)) \<and>
   merge_data [row_placeholder] labels_missing False PyNone = Inl (KeyError ''7_3'')"
  using merge_data_missing_label [of "[row_placeholder]" False PyNone
      "[''7_1'', ''7_2'', ''7_3'', ''7_4'', ''7_5'']"
      "[''x a'', ''x b'', ''x c'', ''x d'', ''x e'']" 2 labels_missing]
  by (simp add: eval_defs row_placeholder_def labels_missing_def label_ok_def
      less_2_cases_iff)


section \<open>Round trip of the marker insertion\<close>

text \<open>
  C3 as stated fails where the sentence is not already joined by single spaces: the
  insertion rebuilds the sentence from its whitespace tokens with single spaces, the plain
  replacement keeps the spacing. The sentence \<^verbatim>\<open>"a  ______ b"\<close> (two spaces after \<^verbatim>\<open>a\<close>) has
  exactly one blank token; marking gives \<^verbatim>\<open>"a [F] x [/F] b"\<close>, removing the markers gives
  \<^verbatim>\<open>"a x b"\<close>, and the replacement gives \<^verbatim>\<open>"a  x b"\<close>.
\<close>

theorem insert_then_remove_markers_counterexample:
  "py_split ''a  ______ b'' = [''a'', blank, ''b''] \<and>
   insert_filler_markers ''a  ______ b'' ''x'' markers_F = Inr ''a [F] x [/F] b'' \<and>
   remove_marker_tokens ''[F]'' ''[/F]'' ''a [F] x [/F] b'' = ''a x b'' \<and>
   py_replace ''a  ______ b'' blank ''x'' = ''a  x b'' \<and>
   remove_marker_tokens ''[F]'' ''[/F]'' ''a [F] x [/F] b''
     \<noteq> py_replace ''a  ______ b'' blank ''x''"
  by (simp add: eval_defs remove_marker_tokens_def)

text \<open>
  C3, amended: let the sentence be equal to its whitespace tokens joined by single spaces,
  let the blank be one of the tokens and occur in no other token, and let the two markers be
  strings without a space that are not among the space-separated pieces of the sentence or
  of the filler. Then \<^verbatim>\<open>insert_filler_markers\<close> returns, and removing the two marker tokens
  from its output gives the sentence with the blank replaced by the filler.
\<close>

theorem insert_then_remove_markers:
  assumes norm: "sentence = join_strs '' '' (py_split sentence)"
    and one: "blank \<in> set (py_split sentence)"
    and only: "\<forall>t\<in>set (remove1 blank (py_split sentence)). \<not> sublist blank t"
    and nosp: "CHR '' '' \<notin> set m0" "CHR '' '' \<notin> set m1"
    and fresh: "m0 \<notin> set (split_on_space sentence) \<union> set (split_on_space filler)"
               "m1 \<notin> set (split_on_space sentence) \<union> set (split_on_space filler)"
  shows "\<exists>out. insert_filler_markers sentence filler (PyTuple [PyStr m0, PyStr m1]) = Inr out \<and>
     remove_marker_tokens m0 m1 out = py_replace sentence blank filler"
proof -
  from insert_filler_markers_tokens [OF one] obtain pre post where
    toks: "py_split sentence = pre @ blank # post" and pre: "blank \<notin> set pre"
    and out: "insert_filler_markers sentence filler (PyTuple [PyStr m0, PyStr m1])
       = Inr (join_strs '' '' (pre @ [m0, filler, m1] @ post))"
    by blast
  let ?P = "\<lambda>t. t \<noteq> m0 \<and> t \<noteq> m1"
  let ?pp = "concat (map split_on_space pre)" and ?qq = "concat (map split_on_space post)"
  have sent: "sentence = join_strs '' '' (pre @ blank # post)"
    using norm toks by simp
  have "split_on_space sentence = ?pp @ split_on_space blank @ ?qq"
    by (subst sent) (simp add: sos_join)
  with fresh have keep: "filter ?P ?pp = ?pp" "filter ?P ?qq = ?qq"
    "filter ?P (split_on_space filler) = split_on_space filler"
    by (auto simp: filter_id_conv)
  have "split_on_space (join_strs '' '' (pre @ [m0, filler, m1] @ post))
        = ?pp @ [m0] @ split_on_space filler @ [m1] @ ?qq"
    using nosp by (simp add: sos_join sos_no_space)
  then have "remove_marker_tokens m0 m1 (join_strs '' '' (pre @ [m0, filler, m1] @ post))
        = join_strs '' '' (?pp @ split_on_space filler @ ?qq)"
    by (simp add: remove_marker_tokens_def keep)
  also have "?pp @ split_on_space filler @ ?qq = concat (map split_on_space (pre @ filler # post))"
    by simp
  also have "join_strs '' '' \<dots> = join_strs '' '' (pre @ filler # post)"
    by (rule join_concat_sos) simp
  finally have left: "remove_marker_tokens m0 m1 (join_strs '' '' (pre @ [m0, filler, m1] @ post))
        = join_strs '' '' (pre @ filler # post)" .
  have "remove1 blank (pre @ blank # post) = pre @ post"
    using pre by (simp add: remove1_append)
  with only toks have "\<forall>t\<in>set pre \<union> set post. \<not> sublist blank t" by simp
  moreover have "blank \<noteq> []" "CHR '' '' \<notin> set blank" by (simp_all add: blank_def)
  ultimately have "replace_ne blank filler (join_strs '' '' (pre @ blank # post))
     = join_strs '' '' (pre @ filler # post)"
    by (intro replace_ne_token)
  then have right: "py_replace sentence blank filler = join_strs '' '' (pre @ filler # post)"
    using sent \<open>blank \<noteq> []\<close> by (simp add: py_replace_def)
  from out left right show ?thesis by simp
qed

theorem insert_then_remove_markers_witness:
  "''This is a ______ example.'' = join_strs '' '' (py_split ''This is a ______ example.'') \<and>
   blank \<in> set (py_split ''This is a ______ example.'') \<and>
   remove1 blank (py_split ''This is a ______ example.'') = [''This'', ''is'', ''a'', ''example.''] \<and>
   \<not> sublist blank ''This'' \<and> \<not> sublist blank ''is'' \<and> \<not> sublist blank ''a'' \<and>
   \<not> sublist blank ''example.'' \<and>
   CHR '' '' \<notin> set ''[F]'' \<and> CHR '' '' \<notin> set ''[/F]'' \<and>
   ''[F]'' \<notin> set (split_on_space ''This is a ______ example.'')
            \<union> set (split_on_space ''really simple'') \<and>
   ''[/F]'' \<notin> set (split_on_space ''This is a ______ example.'')
            \<union> set (split_on_space ''really simple'') \<and>
   insert_filler_markers ''This is a ______ example.'' ''really simple''
       (PyTuple [PyStr ''[F]'', PyStr ''[/F]''])
     = Inr ''This is a [F] really simple [/F] example.'' \<and>
   remove_marker_tokens ''[F]'' ''[/F]'' ''This is a [F] really simple [/F] example.''
     = ''This is a really simple example.'' \<and>
   py_replace ''This is a ______ example.'' blank ''really simple''
     = ''This is a really simple example.''"
  using insert_then_remove_markers
    [of "''This is a ______ example.''" "''[F]''" "''[/F]''" "''really simple''"]
  by (simp add: eval_defs remove_marker_tokens_def sublist_Cons_right)

end
